theory Spec2Isabelle
  imports Main "HOL-Library.AList"
begin

unbundle bit_operations_syntax

section \<open>Data model\<close>

text \<open>
  The exceptions the functions of \<^verbatim>\<open>propositions/semantics.py\<close> can raise: a failed
  \<^verbatim>\<open>assert\<close>, a dictionary lookup of a missing key, a list index out of range, and
  the read of an attribute an object does not have. A function's result is
  \<open>error + 'a\<close>, with \<open>Inl\<close> for the exception raised.
\<close>

datatype error = AssertionError | KeyError | IndexError | AttributeError

text \<open>
  Modelled from the spec: the class \<^verbatim>\<open>Formula\<close> of \<^verbatim>\<open>propositions/syntax.py\<close>, which is
  not part of the sources at hand. A formula is an immutable tree with a root label
  (a string) and zero, one or two ordered children; the three constructors are the calls
  \<^verbatim>\<open>Formula(root)\<close>, \<^verbatim>\<open>Formula(root, first)\<close> and \<^verbatim>\<open>Formula(root, first, second)\<close>.
\<close>

datatype Formula =
    Formula0 string
  | Formula1 string Formula
  | Formula2 string Formula Formula

text \<open>
  Modelled from the spec: the label predicates of \<^verbatim>\<open>propositions/syntax.py\<close>. A variable
  name is a lowercase letter optionally followed by digits; the constants are the two
  symbols \<^verbatim>\<open>T\<close> and \<^verbatim>\<open>F\<close>; the unary operator is negation \<^verbatim>\<open>~\<close>; the binary operators
  are and, or, implies and iff, the first three spelled \<^verbatim>\<open>&\<close>, \<^verbatim>\<open>|\<close>, \<^verbatim>\<open>->\<close> by
  \<^verbatim>\<open>semantics.py\<close> and iff spelled \<^verbatim>\<open><->\<close>.
\<close>

definition is_lower :: "char \<Rightarrow> bool" where
  "is_lower c = (97 \<le> (of_char c :: nat) \<and> (of_char c :: nat) \<le> 122)"

definition is_digit :: "char \<Rightarrow> bool" where
  "is_digit c = (48 \<le> (of_char c :: nat) \<and> (of_char c :: nat) \<le> 57)"

definition is_variable :: "string \<Rightarrow> bool" where
  "is_variable s = (case s of [] \<Rightarrow> False | c # cs \<Rightarrow> is_lower c \<and> list_all is_digit cs)"

definition is_constant :: "string \<Rightarrow> bool" where
  "is_constant s = (s = ''T'' \<or> s = ''F'')"

definition is_unary :: "string \<Rightarrow> bool" where
  "is_unary s = (s = ''~'')"

definition is_binary :: "string \<Rightarrow> bool" where
  "is_binary s = (s = ''&'' \<or> s = ''|'' \<or> s = ''->'' \<or> s = ''<->'')"

text \<open>
  Modelled from the spec: the method \<^verbatim>\<open>Formula.variables()\<close> of \<^verbatim>\<open>propositions/syntax.py\<close>,
  the set of distinct variable names appearing in the tree.
\<close>

fun formula_variables :: "Formula \<Rightarrow> string set" where
  "formula_variables (Formula0 r) = (if is_variable r then {r} else {})"
| "formula_variables (Formula1 r a) =
     (if is_variable r then {r} else {}) \<union> formula_variables a"
| "formula_variables (Formula2 r a b) =
     (if is_variable r then {r} else {}) \<union> formula_variables a \<union> formula_variables b"

text \<open>
  Modelled from the spec: the constructor of \<^verbatim>\<open>Formula\<close> only builds trees whose labels
  fit their number of children; \<open>wf_formula\<close> singles out these trees.
\<close>

fun wf_formula :: "Formula \<Rightarrow> bool" where
  "wf_formula (Formula0 r) = (is_variable r \<or> is_constant r)"
| "wf_formula (Formula1 r a) = (is_unary r \<and> wf_formula a)"
| "wf_formula (Formula2 r a b) = (is_binary r \<and> wf_formula a \<and> wf_formula b)"

text \<open>
  A model is a Python \<^verbatim>\<open>dict\<close> from variable names to truth values. A \<^verbatim>\<open>dict\<close> keeps its
  keys in insertion order, and \<^verbatim>\<open>_synthesize_for_model\<close> iterates over them, so a model
  is an association list; \<^verbatim>\<open>model[k] = v\<close> is \<open>AList.update k v\<close> (overwrite in place, or
  append), \<^verbatim>\<open>model[k]\<close> is \<open>map_of\<close> with \<open>KeyError\<close> for a missing key.
\<close>

type_synonym Model = "(string \<times> bool) list"

definition getitem :: "Model \<Rightarrow> string \<Rightarrow> error + bool" where
  "getitem model k = (case map_of model k of None \<Rightarrow> Inl KeyError | Some b \<Rightarrow> Inr b)"

section \<open>Model utilities\<close>

definition is_model :: "Model \<Rightarrow> bool" where
  "is_model model = list_all (\<lambda>kv. is_variable (fst kv)) model"

definition variables :: "Model \<Rightarrow> error + string set" where
  "variables model =
     (if \<not> is_model model then Inl AssertionError else Inr (set (map fst model)))"

section \<open>Evaluator\<close>

text \<open>
  \<^verbatim>\<open>evaluate\<close> checks its two assertions at every call, then dispatches on the root label
  in the order variable, constant, unary, and takes every other label as binary, where
  the last \<^verbatim>\<open>else\<close> catches every label other than \<^verbatim>\<open>&\<close>, \<^verbatim>\<open>|\<close> and \<^verbatim>\<open>->\<close>. Reading a
  child that a node does not have raises \<open>AttributeError\<close>.
\<close>

fun evaluate :: "Formula \<Rightarrow> Model \<Rightarrow> error + bool" where
  "evaluate (Formula0 r) model =
     (if \<not> is_model model then Inl AssertionError else
      case variables model of Inl e \<Rightarrow> Inl e | Inr ks \<Rightarrow>
      if \<not> formula_variables (Formula0 r) \<subseteq> ks then Inl AssertionError else
      if is_variable r then getitem model r else
      if is_constant r then Inr (if r = ''T'' then True else False) else
      Inl AttributeError)"
| "evaluate (Formula1 r a) model =
     (if \<not> is_model model then Inl AssertionError else
      case variables model of Inl e \<Rightarrow> Inl e | Inr ks \<Rightarrow>
      if \<not> formula_variables (Formula1 r a) \<subseteq> ks then Inl AssertionError else
      if is_variable r then getitem model r else
      if is_constant r then Inr (if r = ''T'' then True else False) else
      if is_unary r then
        (case evaluate a model of Inl e \<Rightarrow> Inl e | Inr v \<Rightarrow> Inr (\<not> v))
      else
        (case evaluate a model of Inl e \<Rightarrow> Inl e | Inr left_val \<Rightarrow> Inl AttributeError))"
| "evaluate (Formula2 r a b) model =
     (if \<not> is_model model then Inl AssertionError else
      case variables model of Inl e \<Rightarrow> Inl e | Inr ks \<Rightarrow>
      if \<not> formula_variables (Formula2 r a b) \<subseteq> ks then Inl AssertionError else
      if is_variable r then getitem model r else
      if is_constant r then Inr (if r = ''T'' then True else False) else
      if is_unary r then
        (case evaluate a model of Inl e \<Rightarrow> Inl e | Inr v \<Rightarrow> Inr (\<not> v))
      else
        (case evaluate a model of Inl e \<Rightarrow> Inl e | Inr left_val \<Rightarrow>
         case evaluate b model of Inl e \<Rightarrow> Inl e | Inr right_val \<Rightarrow>
         if r = ''&'' then Inr (left_val \<and> right_val)
         else if r = ''|'' then Inr (left_val \<or> right_val)
         else if r = ''->'' then Inr ((\<not> left_val) \<or> right_val)
         else Inr (left_val \<noteq> right_val)))"

section \<open>Model enumerator\<close>

text \<open>
  \<^verbatim>\<open>all_models\<close> first asserts that every name is a variable name, then builds one
  dictionary for each \<open>i\<close> in \<^verbatim>\<open>range(2**n)\<close>, storing under the \<open>j\<close>-th name the bit
  \<^verbatim>\<open>(i >> (n - j - 1)) & 1\<close> as a boolean. The counters \<open>i\<close>, \<open>j\<close> and \<open>n\<close> are never
  negative and \<open>j < n\<close> inside the loop, so they are natural numbers.
\<close>

definition build_model :: "string list \<Rightarrow> nat \<Rightarrow> Model" where
  "build_model vs i =
     fold (\<lambda>(j, var) model. AList.update var ((drop_bit (length vs - j - 1) i AND 1) \<noteq> 0) model)
       (enumerate 0 vs) []"

definition all_models :: "string list \<Rightarrow> error + Model list" where
  "all_models vs =
     (if \<not> list_all is_variable vs then Inl AssertionError
      else Inr (map (build_model vs) [0..<2 ^ length vs]))"


section \<open>Classifiers\<close>







section \<open>Synthesizers\<close>

text \<open>
  \<^verbatim>\<open>_synthesize_for_model\<close> (here without the leading underscore, as is
  \<^verbatim>\<open>_synthesize_for_all_except_model\<close>) starts from \<^verbatim>\<open>result = None\<close> and conjoins one
  literal for each key of the model, in the order of the keys. After the assertion on the
  number of keys the loop runs at least once and \<^verbatim>\<open>result\<close> is a formula at the
  \<^verbatim>\<open>return\<close>; the branch for \<open>None\<close> there is never taken (lemma
  \<open>synthesize_for_model_loop_Some\<close>). \<^verbatim>\<open>synthesize\<close> reads \<^verbatim>\<open>vals_list[i]\<close> for every index
  of \<^verbatim>\<open>all_models\<close>, which raises \<open>IndexError\<close> past the end of the list, and never
  compares the length of the list with the number of models.
\<close>

fun synthesize_for_model_loop ::
  "Model \<Rightarrow> string list \<Rightarrow> Formula option \<Rightarrow> error + Formula option" where
  "synthesize_for_model_loop model [] result = Inr result"
| "synthesize_for_model_loop model (v # vars_list) result =
     (case getitem model v of Inl e \<Rightarrow> Inl e | Inr b \<Rightarrow>
      let literal = (if b then Formula0 v else Formula1 ''~'' (Formula0 v)) in
      synthesize_for_model_loop model vars_list
        (case result of None \<Rightarrow> Some literal
         | Some r \<Rightarrow> Some (Formula2 ''&'' r literal)))"

definition synthesize_for_model :: "Model \<Rightarrow> error + Formula" where
  "synthesize_for_model model =
     (if \<not> is_model model then Inl AssertionError else
      if \<not> length (map fst model) > 0 then Inl AssertionError else
      case synthesize_for_model_loop model (map fst model) None of
        Inl e \<Rightarrow> Inl e
      | Inr None \<Rightarrow> Inl AssertionError
      | Inr (Some result) \<Rightarrow> Inr result)"

fun synthesize_loop ::
  "(nat \<times> Model) list \<Rightarrow> bool list \<Rightarrow> Formula list \<Rightarrow> error + Formula list" where
  "synthesize_loop [] vals_list clauses = Inr clauses"
| "synthesize_loop ((i, m) # ims) vals_list clauses =
     (if \<not> i < length vals_list then Inl IndexError else
      if vals_list ! i then
        (case synthesize_for_model m of Inl e \<Rightarrow> Inl e
         | Inr clause \<Rightarrow> synthesize_loop ims vals_list (clauses @ [clause]))
      else synthesize_loop ims vals_list clauses)"

definition synthesize :: "string list \<Rightarrow> bool list \<Rightarrow> error + Formula" where
  "synthesize vs values =
     (if \<not> length vs > 0 then Inl AssertionError else
      case all_models vs of Inl e \<Rightarrow> Inl e | Inr models \<Rightarrow>
      (case synthesize_loop (enumerate 0 models) values [] of Inl e \<Rightarrow> Inl e
       | Inr clauses \<Rightarrow>
         if clauses = [] then
           Inr (Formula2 ''&'' (Formula0 ''p'') (Formula1 ''~'' (Formula0 ''p'')))
         else
           Inr (foldl (\<lambda>result c. Formula2 ''|'' result c) (hd clauses) (tl clauses))))"

fun synthesize_for_all_except_model_loop ::
  "Model \<Rightarrow> string list \<Rightarrow> Formula option \<Rightarrow> error + Formula option" where
  "synthesize_for_all_except_model_loop model [] r = Inr r"
| "synthesize_for_all_except_model_loop model (v # vs) r =
     (case getitem model v of Inl e \<Rightarrow> Inl e | Inr b \<Rightarrow>
      let l = (if \<not> b then Formula0 v else Formula1 ''~'' (Formula0 v)) in
      synthesize_for_all_except_model_loop model vs
        (case r of None \<Rightarrow> Some l
         | Some r' \<Rightarrow> Some (Formula2 ''|'' r' l)))"

definition synthesize_for_all_except_model :: "Model \<Rightarrow> error + Formula" where
  "synthesize_for_all_except_model model =
     (if \<not> is_model model then Inl AssertionError else
      if \<not> length (map fst model) > 0 then Inl AssertionError else
      case synthesize_for_all_except_model_loop model (map fst model) None of
        Inl e \<Rightarrow> Inl e
      | Inr None \<Rightarrow> Inl AssertionError
      | Inr (Some r) \<Rightarrow> Inr r)"

fun synthesize_cnf_loop ::
  "(nat \<times> Model) list \<Rightarrow> bool list \<Rightarrow> Formula list \<Rightarrow> error + Formula list" where
  "synthesize_cnf_loop [] vs fs = Inr fs"
| "synthesize_cnf_loop ((i, m) # ims) vs fs =
     (if \<not> i < length vs then Inl IndexError else
      if \<not> vs ! i then
        (case synthesize_for_all_except_model m of Inl e \<Rightarrow> Inl e
         | Inr f \<Rightarrow> synthesize_cnf_loop ims vs (fs @ [f]))
      else synthesize_cnf_loop ims vs fs)"

definition synthesize_cnf :: "string list \<Rightarrow> bool list \<Rightarrow> error + Formula" where
  "synthesize_cnf variable_names values =
     (if \<not> length variable_names > 0 then Inl AssertionError else
      case all_models variable_names of Inl e \<Rightarrow> Inl e | Inr models \<Rightarrow>
      (case synthesize_cnf_loop (enumerate 0 models) values [] of Inl e \<Rightarrow> Inl e
       | Inr fs \<Rightarrow>
         if fs = [] then
           Inr (Formula2 ''|'' (Formula0 ''p'') (Formula1 ''~'' (Formula0 ''p'')))
         else
           Inr (foldl (\<lambda>r f. Formula2 ''&'' r f) (hd fs) (tl fs))))"

section \<open>Inference-rule semantic checks\<close>

text \<open>
  Modelled from the spec: the class \<^verbatim>\<open>InferenceRule\<close> of \<^verbatim>\<open>propositions/proofs.py\<close>, an
  ordered sequence of assumption formulas and one conclusion formula.
\<close>

record InferenceRule =
  assumptions :: "Formula list"
  conclusion :: Formula

text \<open>
  The body of \<^verbatim>\<open>evaluate_inference\<close> is the assertion \<^verbatim>\<open>is_model(model)\<close> and nothing
  else, and the body of \<^verbatim>\<open>is_sound_inference\<close> is its docstring alone: a call that does
  not raise returns Python's \<^verbatim>\<open>None\<close>. The result type \<open>bool option\<close> has \<open>None\<close> for
  that value.
\<close>

definition evaluate_inference :: "InferenceRule \<Rightarrow> Model \<Rightarrow> error + bool option" where
  "evaluate_inference rule model =
     (if \<not> is_model model then Inl AssertionError else Inr None)"

definition is_sound_inference :: "InferenceRule \<Rightarrow> error + bool option" where
  "is_sound_inference rule = Inr None"

section \<open>Facts about the evaluator\<close>

lemmas label_defs = is_variable_def is_lower_def is_digit_def is_constant_def is_unary_def

lemma evaluate_Inr_pre:
  "evaluate f m = Inr v \<Longrightarrow> is_model m \<and> formula_variables f \<subseteq> set (map fst m)"
  by (cases f) (simp_all add: variables_def split: if_splits)

lemma evaluate_binary:
  assumes "\<not> is_variable r" "\<not> is_constant r" "\<not> is_unary r"
    and "evaluate a m = Inr x" "evaluate b m = Inr y"
  shows "evaluate (Formula2 r a b) m =
      Inr (if r = ''&'' then x \<and> y else if r = ''|'' then x \<or> y
           else if r = ''->'' then \<not> x \<or> y else x \<noteq> y)"
  using assms evaluate_Inr_pre[OF assms(4)] evaluate_Inr_pre[OF assms(5)]
  by (simp add: variables_def)

lemma evaluate_unary:
  assumes "evaluate a m = Inr x"
  shows "evaluate (Formula1 ''~'' a) m = Inr (\<not> x)"
  using assms evaluate_Inr_pre[OF assms]
  by (simp add: variables_def is_variable_def is_constant_def is_unary_def is_lower_def)

lemma evaluate_variable:
  assumes "is_model m" "map_of m v = Some b"
  shows "evaluate (Formula0 v) m = Inr b"
proof -
  from assms(2) have "(v, b) \<in> set m" by (rule map_of_SomeD)
  then have "v \<in> fst ` set m" by force
  moreover from \<open>(v, b) \<in> set m\<close> assms(1) have "is_variable v"
    by (auto simp: is_model_def list_all_iff)
  ultimately show ?thesis using assms by (simp add: variables_def getitem_def)
qed

lemma evaluate_agree:
  assumes "is_model m1" "is_model m2"
    and "formula_variables f \<subseteq> set (map fst m1)" "formula_variables f \<subseteq> set (map fst m2)"
    and "\<forall>v \<in> formula_variables f. map_of m1 v = map_of m2 v"
  shows "evaluate f m1 = evaluate f m2"
  using assms
proof (induction f)
  case (Formula0 r)
  then show ?case by (simp add: variables_def getitem_def)
next
  case (Formula1 r a)
  then have "evaluate a m1 = evaluate a m2" by simp
  with Formula1.prems show ?case by (simp add: variables_def getitem_def)
next
  case (Formula2 r a b)
  then have "evaluate a m1 = evaluate a m2" "evaluate b m1 = evaluate b m2" by simp_all
  with Formula2.prems show ?case by (simp add: variables_def getitem_def cong: sum.case_cong)
qed

section \<open>Facts about the model enumerator\<close>

lemma bool_of_bit: "((drop_bit k (i::nat) AND 1) \<noteq> 0) = bit i k"
  by (simp add: bit_iff_odd_drop_bit and_one_eq mod_2_eq_odd)

lemma update_fresh: "k \<notin> fst ` set m \<Longrightarrow> AList.update k v m = m @ [(k, v)]"
  by (induction m) auto

lemma fold_update_keys:
  "fst ` set (fold (\<lambda>(j, var) model. AList.update var (g j) model) js m0)
     = snd ` set js \<union> fst ` set m0"
  by (induction js arbitrary: m0) (auto simp: dom_update split: prod.splits)

lemma fold_update_distinct:
  "distinct (map snd js) \<Longrightarrow> snd ` set js \<inter> fst ` set m0 = {} \<Longrightarrow>
   fold (\<lambda>(j, var) model. AList.update var (g j) model) js m0
     = m0 @ map (\<lambda>(j, var). (var, g j)) js"
proof (induction js arbitrary: m0)
  case Nil
  then show ?case by simp
next
  case (Cons a js)
  obtain j var where a: "a = (j, var)" by (cases a)
  from Cons.prems have fresh: "var \<notin> fst ` set m0" by (auto simp: a)
  have "snd ` set js \<inter> fst ` set (m0 @ [(var, g j)]) = {}"
    using Cons.prems by (auto simp: a)
  with Cons.IH[of "m0 @ [(var, g j)]"] Cons.prems show ?case
    by (simp add: a update_fresh[OF fresh])
qed

lemma build_model_keys: "fst ` set (build_model vs i) = set vs"
proof -
  have "set (map snd (enumerate 0 vs)) = set vs" by (simp only: map_snd_enumerate)
  then have "snd ` set (enumerate 0 vs) = set vs" by (simp only: set_map)
  then show ?thesis unfolding build_model_def by (simp add: fold_update_keys)
qed

lemma build_model_distinct:
  assumes "distinct vs"
  shows "build_model vs i = zip vs (map (\<lambda>j. bit i (length vs - j - 1)) [0..<length vs])"
proof -
  have d: "distinct (map snd (enumerate 0 vs))" using assms by (simp add: enumerate_eq_zip)
  have "build_model vs i = map (\<lambda>(j, var). (var, bit i (length vs - j - 1))) (enumerate 0 vs)"
    unfolding build_model_def bool_of_bit
    using fold_update_distinct[OF d, of "[]" "\<lambda>j. bit i (length vs - j - 1)"] by simp
  also have "\<dots> = zip vs (map (\<lambda>j. bit i (length vs - j - 1)) [0..<length vs])"
    by (rule nth_equalityI) (simp_all add: nth_enumerate_eq)
  finally show ?thesis .
qed

lemma build_model_map_fst: "distinct vs \<Longrightarrow> map fst (build_model vs i) = vs"
  by (simp add: build_model_distinct)

lemma build_model_lookup:
  "distinct vs \<Longrightarrow> j < length vs \<Longrightarrow>
   map_of (build_model vs i) (vs ! j) = Some (bit i (length vs - j - 1))"
  using map_of_zip_nth[of vs "map (\<lambda>j. bit i (length vs - j - 1)) [0..<length vs]" j]
  by (simp add: build_model_distinct)

lemma is_model_build_model: "list_all is_variable vs \<Longrightarrow> is_model (build_model vs i)"
  using build_model_keys[of vs i] by (auto simp: is_model_def list_all_iff)

lemma nat_bits_below:
  assumes "i < 2 ^ n" "i' < 2 ^ n" "\<forall>k<n. bit (i::nat) k = bit (i'::nat) k"
  shows "i = i'"
proof (rule bit_eqI)
  fix k
  show "bit i k = bit i' k"
  proof (cases "k < n")
    case True
    with assms(3) show ?thesis by simp
  next
    case False
    then have "2 ^ n \<le> (2::nat) ^ k" by simp
    with assms have "i < 2 ^ k" "i' < 2 ^ k" by (meson order.strict_trans2)+
    then show ?thesis by (simp add: bit_iff_odd)
  qed
qed

lemma nat_bits_exist: "\<exists>i<2 ^ n. \<forall>k<n. bit (i::nat) k = g k"
proof (induction n arbitrary: g)
  case 0
  then show ?case by simp
next
  case (Suc n)
  from Suc[of "g \<circ> Suc"] obtain i :: nat where i: "i < 2 ^ n" "\<forall>k<n. bit i k = g (Suc k)" by auto
  let ?i = "of_bool (g 0) + 2 * i"
  have "?i < 2 ^ Suc n" using i(1) by (simp split: if_splits)
  moreover have "\<forall>k<Suc n. bit ?i k = g k"
  proof (intro allI impI)
    fix k assume "k < Suc n"
    then show "bit ?i k = g k"
      using i(2) by (cases k) (simp_all add: bit_Suc bit_0)
  qed
  ultimately show ?case by blast
qed

lemma all_models_Inr:
  "list_all is_variable vs \<Longrightarrow> all_models vs = Inr (map (build_model vs) [0..<2 ^ length vs])"
  by (simp add: all_models_def)

lemma build_model_inj:
  assumes "distinct vs" "i < 2 ^ length vs" "i' < 2 ^ length vs"
    and "\<forall>j<length vs. map_of (build_model vs i) (vs ! j) = map_of (build_model vs i') (vs ! j)"
  shows "i = i'"
proof (rule nat_bits_below[OF assms(2,3)], intro allI impI)
  fix k assume k: "k < length vs"
  then have j: "length vs - 1 - k < length vs" by simp
  have e: "length vs - (length vs - 1 - k) - 1 = k" using k by simp
  have "map_of (build_model vs i) (vs ! (length vs - 1 - k)) = Some (bit i k)"
    "map_of (build_model vs i') (vs ! (length vs - 1 - k)) = Some (bit i' k)"
    using build_model_lookup[OF assms(1) j, of i] build_model_lookup[OF assms(1) j, of i']
    unfolding e by blast+
  moreover from assms(4) j
  have "map_of (build_model vs i) (vs ! (length vs - 1 - k))
      = map_of (build_model vs i') (vs ! (length vs - 1 - k))" by blast
  ultimately show "bit i k = bit i' k" by simp
qed

lemma build_model_surj:
  assumes "distinct vs"
  shows "\<exists>i<2 ^ length vs. \<forall>j<length vs. map_of (build_model vs i) (vs ! j) = Some (a (vs ! j))"
proof -
  obtain i :: nat where i: "i < 2 ^ length vs"
    "\<forall>k<length vs. bit i k = a (vs ! (length vs - 1 - k))"
    using nat_bits_exist[of "length vs" "\<lambda>k. a (vs ! (length vs - 1 - k))"] by blast
  have "\<forall>j<length vs. map_of (build_model vs i) (vs ! j) = Some (a (vs ! j))"
  proof (intro allI impI)
    fix j assume j: "j < length vs"
    then have "length vs - j - 1 < length vs" by simp
    with i(2) have "bit i (length vs - j - 1) = a (vs ! (length vs - 1 - (length vs - j - 1)))"
      by blast
    moreover have "length vs - 1 - (length vs - j - 1) = j" using j by simp
    ultimately show "map_of (build_model vs i) (vs ! j) = Some (a (vs ! j))"
      by (simp add: build_model_lookup[OF assms j])
  qed
  with i(1) show ?thesis by blast
qed


section \<open>Facts about the synthesizers\<close>

lemma synthesize_for_model_loop_Some:
  "vars_list \<noteq> [] \<or> result \<noteq> None \<Longrightarrow>
   synthesize_for_model_loop model vars_list result \<noteq> Inr None"
  by (induction vars_list arbitrary: result) (auto simp: Let_def split: sum.splits option.splits)

lemma synthesize_for_all_except_model_loop_Some:
  "vs \<noteq> [] \<or> r \<noteq> None \<Longrightarrow>
   synthesize_for_all_except_model_loop model vs r \<noteq> Inr None"
  by (induction vs arbitrary: r) (auto simp: Let_def split: sum.splits option.splits)

lemma getitem_Some: "map_of m k = Some b \<Longrightarrow> getitem m k = Inr b"
  by (simp add: getitem_def)

lemma key_lookup:
  assumes "k \<in> fst ` set m"
  obtains b where "map_of m k = Some b"
  using assms by (metis domD dom_map_of_conv_image_fst)

lemma evaluate_literal:
  assumes "is_model m'" "map_of m' k = Some v"
  shows "evaluate (if b then Formula0 k else Formula1 ''~'' (Formula0 k)) m' = Inr (v = b)"
  using evaluate_variable[OF assms] evaluate_unary[OF evaluate_variable[OF assms]]
  by (cases b) auto

lemma synthesize_for_model_loop_sem:
  assumes "is_model m'" "set ks \<subseteq> fst ` set m" "fst ` set m \<subseteq> fst ` set m'"
    and "evaluate r m' = Inr x"
  shows "\<exists>r'. synthesize_for_model_loop m ks (Some r) = Inr (Some r') \<and>
           evaluate r' m' = Inr (x \<and> (\<forall>k\<in>set ks. map_of m' k = map_of m k))"
  using assms(2,4)
proof (induction ks arbitrary: r x)
  case Nil
  then show ?case by simp
next
  case (Cons k ks)
  from Cons.prems(1) have km: "k \<in> fst ` set m" by simp
  then obtain b where b: "map_of m k = Some b" by (rule key_lookup)
  from km assms(3) have "k \<in> fst ` set m'" by blast
  then obtain v where v: "map_of m' k = Some v" by (rule key_lookup)
  let ?lit = "if b then Formula0 k else Formula1 ''~'' (Formula0 k)"
  have lit: "evaluate ?lit m' = Inr (v = b)" by (rule evaluate_literal[OF assms(1) v])
  have conj: "evaluate (Formula2 ''&'' r ?lit) m' = Inr (x \<and> v = b)"
    using evaluate_binary[OF _ _ _ Cons.prems(2) lit, of "''&''"] by (simp add: label_defs)
  from Cons.prems(1) have "set ks \<subseteq> fst ` set m" by simp
  from Cons.IH[OF this conj] obtain r' where
    r': "synthesize_for_model_loop m ks (Some (Formula2 ''&'' r ?lit)) = Inr (Some r')"
      "evaluate r' m' = Inr ((x \<and> v = b) \<and> (\<forall>k\<in>set ks. map_of m' k = map_of m k))"
    by blast
  have "synthesize_for_model_loop m (k # ks) (Some r) = Inr (Some r')"
    using r'(1) by (simp add: getitem_Some[OF b])
  moreover have "evaluate r' m' = Inr (x \<and> (\<forall>k\<in>set (k # ks). map_of m' k = map_of m k))"
    using r'(2) by (auto simp: b v)
  ultimately show ?case by blast
qed

lemma synthesize_for_model_sem:
  assumes "is_model m" "m \<noteq> []" "is_model m'" "fst ` set m \<subseteq> fst ` set m'"
  shows "\<exists>c. synthesize_for_model m = Inr c \<and>
           evaluate c m' = Inr (\<forall>k\<in>fst ` set m. map_of m' k = map_of m k)"
proof -
  from assms(2) obtain k0 b0 ks where m: "map fst m = k0 # ks"
    by (cases m) auto
  then have keys: "fst ` set m = set (k0 # ks)" by (metis set_map)
  then have km: "k0 \<in> fst ` set m" by simp
  then obtain b where b: "map_of m k0 = Some b" by (rule key_lookup)
  from km assms(4) have "k0 \<in> fst ` set m'" by blast
  then obtain v where v: "map_of m' k0 = Some v" by (rule key_lookup)
  let ?lit = "if b then Formula0 k0 else Formula1 ''~'' (Formula0 k0)"
  have lit: "evaluate ?lit m' = Inr (v = b)" by (rule evaluate_literal[OF assms(3) v])
  have sub: "set ks \<subseteq> fst ` set m" using keys by auto
  from synthesize_for_model_loop_sem[OF assms(3) sub assms(4) lit] obtain r' where
    r': "synthesize_for_model_loop m ks (Some ?lit) = Inr (Some r')"
      "evaluate r' m' = Inr (v = b \<and> (\<forall>k\<in>set ks. map_of m' k = map_of m k))"
    by blast
  have "synthesize_for_model m = Inr r'"
    using r'(1) assms(1,2) by (simp add: synthesize_for_model_def m getitem_Some[OF b])
  moreover have "evaluate r' m' = Inr (\<forall>k\<in>fst ` set m. map_of m' k = map_of m k)"
    using r'(2) unfolding keys by (auto simp: b v)
  ultimately show ?thesis by blast
qed

lemma synthesize_for_all_except_model_loop_sem:
  assumes "is_model m'" "set ks \<subseteq> fst ` set m" "fst ` set m \<subseteq> fst ` set m'"
    and "evaluate r m' = Inr x"
  shows "\<exists>r'. synthesize_for_all_except_model_loop m ks (Some r) = Inr (Some r') \<and>
           evaluate r' m' = Inr (x \<or> (\<exists>k\<in>set ks. map_of m' k \<noteq> map_of m k))"
  using assms(2,4)
proof (induction ks arbitrary: r x)
  case Nil
  then show ?case by simp
next
  case (Cons k ks)
  from Cons.prems(1) have km: "k \<in> fst ` set m" by simp
  then obtain b where b: "map_of m k = Some b" by (rule key_lookup)
  from km assms(3) have "k \<in> fst ` set m'" by blast
  then obtain v where v: "map_of m' k = Some v" by (rule key_lookup)
  let ?lit = "if \<not> b then Formula0 k else Formula1 ''~'' (Formula0 k)"
  have lit: "evaluate ?lit m' = Inr (v = (\<not> b))" by (rule evaluate_literal[OF assms(1) v])
  have disj: "evaluate (Formula2 ''|'' r ?lit) m' = Inr (x \<or> v = (\<not> b))"
    using evaluate_binary[OF _ _ _ Cons.prems(2) lit, of "''|''"] by (simp add: label_defs)
  from Cons.prems(1) have "set ks \<subseteq> fst ` set m" by simp
  from Cons.IH[OF this disj] obtain r' where
    r': "synthesize_for_all_except_model_loop m ks (Some (Formula2 ''|'' r ?lit)) = Inr (Some r')"
      "evaluate r' m' = Inr ((x \<or> v = (\<not> b)) \<or> (\<exists>k\<in>set ks. map_of m' k \<noteq> map_of m k))"
    by blast
  have "synthesize_for_all_except_model_loop m (k # ks) (Some r) = Inr (Some r')"
    using r'(1) by (simp add: getitem_Some[OF b])
  moreover have "evaluate r' m' = Inr (x \<or> (\<exists>k\<in>set (k # ks). map_of m' k \<noteq> map_of m k))"
    using r'(2) by (auto simp: b v)
  ultimately show ?case by blast
qed

lemma synthesize_for_all_except_model_sem:
  assumes "is_model m" "m \<noteq> []" "is_model m'" "fst ` set m \<subseteq> fst ` set m'"
  shows "\<exists>c. synthesize_for_all_except_model m = Inr c \<and>
           evaluate c m' = Inr (\<exists>k\<in>fst ` set m. map_of m' k \<noteq> map_of m k)"
proof -
  from assms(2) obtain k0 b0 ks where m: "map fst m = k0 # ks"
    by (cases m) auto
  then have keys: "fst ` set m = set (k0 # ks)" by (metis set_map)
  then have km: "k0 \<in> fst ` set m" by simp
  then obtain b where b: "map_of m k0 = Some b" by (rule key_lookup)
  from km assms(4) have "k0 \<in> fst ` set m'" by blast
  then obtain v where v: "map_of m' k0 = Some v" by (rule key_lookup)
  let ?lit = "if \<not> b then Formula0 k0 else Formula1 ''~'' (Formula0 k0)"
  have lit: "evaluate ?lit m' = Inr (v = (\<not> b))" by (rule evaluate_literal[OF assms(3) v])
  have sub: "set ks \<subseteq> fst ` set m" using keys by auto
  from synthesize_for_all_except_model_loop_sem[OF assms(3) sub assms(4) lit] obtain r' where
    r': "synthesize_for_all_except_model_loop m ks (Some ?lit) = Inr (Some r')"
      "evaluate r' m' = Inr (v = (\<not> b) \<or> (\<exists>k\<in>set ks. map_of m' k \<noteq> map_of m k))"
    by blast
  have "synthesize_for_all_except_model m = Inr r'"
    using r'(1) assms(1,2) by (simp add: synthesize_for_all_except_model_def m getitem_Some[OF b])
  moreover have "evaluate r' m' = Inr (\<exists>k\<in>fst ` set m. map_of m' k \<noteq> map_of m k)"
    using r'(2) unfolding keys by (auto simp: b v)
  ultimately show ?thesis by blast
qed

lemma synthesize_loop_Inr:
  assumes "\<forall>(i, m) \<in> set ims. i < length vals \<and> synthesize_for_model m = Inr (F m)"
  shows "synthesize_loop ims vals cl
           = Inr (cl @ map (\<lambda>(i, m). F m) (filter (\<lambda>(i, m). vals ! i) ims))"
  using assms by (induction ims arbitrary: cl) auto

lemma synthesize_cnf_loop_Inr:
  assumes "\<forall>(i, m) \<in> set ims. i < length vals \<and> synthesize_for_all_except_model m = Inr (F m)"
  shows "synthesize_cnf_loop ims vals cl
           = Inr (cl @ map (\<lambda>(i, m). F m) (filter (\<lambda>(i, m). \<not> vals ! i) ims))"
  using assms by (induction ims arbitrary: cl) auto




lemma enumerate_models:
  "enumerate 0 (map (build_model vs) [0..<N]) = map (\<lambda>i. (i, build_model vs i)) [0..<N]"
  by (rule nth_equalityI) (simp_all add: nth_enumerate_eq)


lemma build_model_nonempty: "vs \<noteq> [] \<Longrightarrow> build_model vs i \<noteq> []"
  using build_model_keys[of vs i] by auto

lemma evaluate_sentinels:
  assumes "is_model m'" "''p'' \<in> fst ` set m'"
  shows "evaluate (Formula2 ''&'' (Formula0 ''p'') (Formula1 ''~'' (Formula0 ''p''))) m' = Inr False"
    and "evaluate (Formula2 ''|'' (Formula0 ''p'') (Formula1 ''~'' (Formula0 ''p''))) m' = Inr True"
proof -
  from assms(2) obtain v where v: "map_of m' ''p'' = Some v" by (rule key_lookup)
  note p = evaluate_variable[OF assms(1) v]
  note np = evaluate_unary[OF p]
  show "evaluate (Formula2 ''&'' (Formula0 ''p'') (Formula1 ''~'' (Formula0 ''p''))) m' = Inr False"
    using evaluate_binary[OF _ _ _ p np, of "''&''"] by (simp add: label_defs)
  show "evaluate (Formula2 ''|'' (Formula0 ''p'') (Formula1 ''~'' (Formula0 ''p''))) m' = Inr True"
    using evaluate_binary[OF _ _ _ p np, of "''|''"] by (simp add: label_defs)
qed



lemma synthesize_for_model_Inr:
  assumes "is_model m" "m \<noteq> []"
  shows "synthesize_for_model m = Inr (projr (synthesize_for_model m))"
  using synthesize_for_model_sem[OF assms assms(1) subset_refl] by auto

lemma synthesize_for_all_except_model_Inr:
  assumes "is_model m" "m \<noteq> []"
  shows "synthesize_for_all_except_model m = Inr (projr (synthesize_for_all_except_model m))"
  using synthesize_for_all_except_model_sem[OF assms assms(1) subset_refl] by auto

lemma synthesize_loop_IndexError:
  assumes "\<forall>(i, m) \<in> set ims. synthesize_for_model m = Inr (F m)"
    and "(i0, m0) \<in> set ims" "\<not> i0 < length vals"
  shows "synthesize_loop ims vals cl = Inl IndexError"
  using assms
proof (induction ims arbitrary: cl)
  case Nil
  then show ?case by simp
next
  case (Cons a ims)
  obtain i m where a: "a = (i, m)" by (cases a)
  show ?case
  proof (cases "i < length vals")
    case False
    then show ?thesis by (simp add: a)
  next
    case True
    with Cons.prems(2,3) have mem: "(i0, m0) \<in> set ims" by (auto simp: a)
    from Cons.prems(1) have all: "\<forall>(i, m) \<in> set ims. synthesize_for_model m = Inr (F m)"
      and m: "synthesize_for_model m = Inr (F m)" by (simp_all add: a)
    show ?thesis
      using True m Cons.IH[OF all mem Cons.prems(3)] by (simp add: a)
  qed
qed

lemma synthesize_cnf_loop_IndexError:
  assumes "\<forall>(i, m) \<in> set ims. synthesize_for_all_except_model m = Inr (F m)"
    and "(i0, m0) \<in> set ims" "\<not> i0 < length vals"
  shows "synthesize_cnf_loop ims vals cl = Inl IndexError"
  using assms
proof (induction ims arbitrary: cl)
  case Nil
  then show ?case by simp
next
  case (Cons a ims)
  obtain i m where a: "a = (i, m)" by (cases a)
  show ?case
  proof (cases "i < length vals")
    case False
    then show ?thesis by (simp add: a)
  next
    case True
    with Cons.prems(2,3) have mem: "(i0, m0) \<in> set ims" by (auto simp: a)
    from Cons.prems(1) have all: "\<forall>(i, m) \<in> set ims. synthesize_for_all_except_model m = Inr (F m)"
      and m: "synthesize_for_all_except_model m = Inr (F m)" by (simp_all add: a)
    show ?thesis
      using True m Cons.IH[OF all mem Cons.prems(3)] by (simp add: a)
  qed
qed

lemma synthesize_loop_cong:
  assumes "\<forall>(i, m) \<in> set ims. i < length vals \<and> i < length vals' \<and> vals ! i = vals' ! i"
  shows "synthesize_loop ims vals cl = synthesize_loop ims vals' cl"
  using assms by (induction ims arbitrary: cl) (auto split: sum.splits)

lemma synthesize_cnf_loop_cong:
  assumes "\<forall>(i, m) \<in> set ims. i < length vals \<and> i < length vals' \<and> vals ! i = vals' ! i"
  shows "synthesize_cnf_loop ims vals cl = synthesize_cnf_loop ims vals' cl"
  using assms by (induction ims arbitrary: cl) (auto split: sum.splits)

lemma synthesize_short:
  assumes "vs \<noteq> []" "list_all is_variable vs" "length vals < 2 ^ length vs"
  shows "synthesize vs vals = Inl IndexError" and "synthesize_cnf vs vals = Inl IndexError"
proof -
  let ?ims = "enumerate 0 (map (build_model vs) [0..<2 ^ length vs])"
  have bad: "(length vals, build_model vs (length vals)) \<in> set ?ims"
    using assms(3) unfolding enumerate_models by simp
  have bad': "\<not> length vals < length vals" by simp
  have 1: "\<forall>(i, m) \<in> set ?ims. synthesize_for_model m = Inr (projr (synthesize_for_model m))"
    unfolding enumerate_models
    using synthesize_for_model_Inr[OF is_model_build_model[OF assms(2)] build_model_nonempty[OF assms(1)]]
    by auto
  have 2: "\<forall>(i, m) \<in> set ?ims.
      synthesize_for_all_except_model m = Inr (projr (synthesize_for_all_except_model m))"
    unfolding enumerate_models
    using synthesize_for_all_except_model_Inr[OF is_model_build_model[OF assms(2)]
        build_model_nonempty[OF assms(1)]]
    by auto
  show "synthesize vs vals = Inl IndexError"
    using assms(1) synthesize_loop_IndexError[OF 1 bad bad', of "[]"]
    by (simp add: synthesize_def all_models_Inr[OF assms(2)])
  show "synthesize_cnf vs vals = Inl IndexError"
    using assms(1) synthesize_cnf_loop_IndexError[OF 2 bad bad', of "[]"]
    by (simp add: synthesize_cnf_def all_models_Inr[OF assms(2)])
qed

lemma synthesize_long:
  assumes "vs \<noteq> []" "list_all is_variable vs" "2 ^ length vs \<le> length vals"
  shows "\<exists>f. synthesize vs vals = Inr f"
    and "synthesize vs vals = synthesize vs (take (2 ^ length vs) vals)"
    and "\<exists>f. synthesize_cnf vs vals = Inr f"
    and "synthesize_cnf vs vals = synthesize_cnf vs (take (2 ^ length vs) vals)"
proof -
  let ?ims = "enumerate 0 (map (build_model vs) [0..<2 ^ length vs])"
  have 1: "\<forall>(i, m) \<in> set ?ims. i < length vals \<and>
      synthesize_for_model m = Inr (projr (synthesize_for_model m))"
    unfolding enumerate_models
    using synthesize_for_model_Inr[OF is_model_build_model[OF assms(2)] build_model_nonempty[OF assms(1)]]
      assms(3) by auto
  have 2: "\<forall>(i, m) \<in> set ?ims. i < length vals \<and>
      synthesize_for_all_except_model m = Inr (projr (synthesize_for_all_except_model m))"
    unfolding enumerate_models
    using synthesize_for_all_except_model_Inr[OF is_model_build_model[OF assms(2)]
        build_model_nonempty[OF assms(1)]] assms(3)
    by auto
  have 3: "\<forall>(i, m) \<in> set ?ims. i < length vals \<and> i < length (take (2 ^ length vs) vals) \<and>
      vals ! i = take (2 ^ length vs) vals ! i"
    unfolding enumerate_models using assms(3) by auto
  show "\<exists>f. synthesize vs vals = Inr f"
    using assms(1) by (simp add: synthesize_def all_models_Inr[OF assms(2)] synthesize_loop_Inr[OF 1])
  show "\<exists>f. synthesize_cnf vs vals = Inr f"
    using assms(1)
    by (simp add: synthesize_cnf_def all_models_Inr[OF assms(2)] synthesize_cnf_loop_Inr[OF 2])
  show "synthesize vs vals = synthesize vs (take (2 ^ length vs) vals)"
    by (simp only: synthesize_def all_models_Inr[OF assms(2)] sum.case synthesize_loop_cong[OF 3])
  show "synthesize_cnf vs vals = synthesize_cnf vs (take (2 ^ length vs) vals)"
    by (simp only: synthesize_cnf_def all_models_Inr[OF assms(2)] sum.case synthesize_cnf_loop_cong[OF 3])
qed

lemma synthesize_all_false:
  assumes "vs \<noteq> []" "list_all is_variable vs" "length vals = 2 ^ length vs"
    and "\<forall>i<length vals. \<not> vals ! i"
  shows "synthesize vs vals
           = Inr (Formula2 ''&'' (Formula0 ''p'') (Formula1 ''~'' (Formula0 ''p'')))"
proof -
  let ?ims = "enumerate 0 (map (build_model vs) [0..<2 ^ length vs])"
  have 1: "\<forall>(i, m) \<in> set ?ims. i < length vals \<and>
      synthesize_for_model m = Inr (projr (synthesize_for_model m))"
    unfolding enumerate_models
    using synthesize_for_model_Inr[OF is_model_build_model[OF assms(2)] build_model_nonempty[OF assms(1)]]
      assms(3) by auto
  have "filter (\<lambda>(i, m). vals ! i) ?ims = []"
    unfolding enumerate_models using assms(3,4) by (auto simp: filter_empty_conv)
  then show ?thesis
    using assms(1) by (simp add: synthesize_def all_models_Inr[OF assms(2)] synthesize_loop_Inr[OF 1])
qed

lemma synthesize_cnf_all_true:
  assumes "vs \<noteq> []" "list_all is_variable vs" "length vals = 2 ^ length vs"
    and "\<forall>i<length vals. vals ! i"
  shows "synthesize_cnf vs vals
           = Inr (Formula2 ''|'' (Formula0 ''p'') (Formula1 ''~'' (Formula0 ''p'')))"
proof -
  let ?ims = "enumerate 0 (map (build_model vs) [0..<2 ^ length vs])"
  have 1: "\<forall>(i, m) \<in> set ?ims. i < length vals \<and>
      synthesize_for_all_except_model m = Inr (projr (synthesize_for_all_except_model m))"
    unfolding enumerate_models
    using synthesize_for_all_except_model_Inr[OF is_model_build_model[OF assms(2)]
        build_model_nonempty[OF assms(1)]] assms(3) by auto
  have "filter (\<lambda>(i, m). \<not> vals ! i) ?ims = []"
    unfolding enumerate_models using assms(3,4) by (auto simp: filter_empty_conv)
  then show ?thesis
    using assms(1)
    by (simp add: synthesize_cnf_def all_models_Inr[OF assms(2)] synthesize_cnf_loop_Inr[OF 1])
qed

lemma sentinel_variables:
  "formula_variables (Formula2 ''&'' (Formula0 ''p'') (Formula1 ''~'' (Formula0 ''p''))) = {''p''}"
  "formula_variables (Formula2 ''|'' (Formula0 ''p'') (Formula1 ''~'' (Formula0 ''p''))) = {''p''}"
  by (simp_all add: label_defs)

section \<open>Facts about the classifiers\<close>









section \<open>The claims\<close>

subsection \<open>Evaluator\<close>

text \<open>
  C1. For every binary formula and every model covering its variables, \<^verbatim>\<open>evaluate\<close>
  combines the values of the children: \<^verbatim>\<open>&\<close> is AND, \<^verbatim>\<open>|\<close> is OR, \<^verbatim>\<open>->\<close> is
  (not left) or right, and iff is true exactly when the two values are equal. The first
  three hold (lemma \<open>evaluate_binary\<close>). The last does not: the final \<^verbatim>\<open>else\<close> of
  \<^verbatim>\<open>evaluate\<close>, which takes every binary root other than these three and so the iff
  operator, returns \<^verbatim>\<open>left_val != right_val\<close>. The value is true exactly when the two
  values differ, and an iff of two true variables evaluates to false.
\<close>

theorem evaluate_binary_fallthrough:
  assumes "\<not> is_variable r" "\<not> is_constant r" "\<not> is_unary r"
    and "r \<noteq> ''&''" "r \<noteq> ''|''" "r \<noteq> ''->''"
    and "evaluate a m = Inr x" "evaluate b m = Inr y"
  shows "evaluate (Formula2 r a b) m = Inr (x \<noteq> y)"
  using evaluate_binary[OF assms(1,2,3,7,8)] assms(4,5,6) by simp

theorem evaluate_binary_fallthrough_witness:
  "is_binary ''<->'' \<and>
   wf_formula (Formula2 ''<->'' (Formula0 ''p'') (Formula0 ''q'')) \<and>
   evaluate (Formula0 ''p'') [(''p'', True), (''q'', True)] = Inr True \<and>
   evaluate (Formula0 ''q'') [(''p'', True), (''q'', True)] = Inr True \<and>
   evaluate (Formula2 ''<->'' (Formula0 ''p'') (Formula0 ''q''))
     [(''p'', True), (''q'', True)] = Inr False"
proof -
  have b: "is_binary ''<->''" and w: "wf_formula (Formula2 ''<->'' (Formula0 ''p'') (Formula0 ''q''))"
    by (simp_all add: is_binary_def label_defs)
  have 1: "\<not> is_variable ''<->''" and 2: "\<not> is_constant ''<->''" and 3: "\<not> is_unary ''<->''"
    and 4: "''<->'' \<noteq> ''&''" and 5: "''<->'' \<noteq> ''|''" and 6: "''<->'' \<noteq> ''->''"
    by (simp_all add: label_defs)
  have p: "evaluate (Formula0 ''p'') [(''p'', True), (''q'', True)] = Inr True"
    and q: "evaluate (Formula0 ''q'') [(''p'', True), (''q'', True)] = Inr True"
    by (simp_all add: label_defs is_model_def variables_def getitem_def)
  from evaluate_binary_fallthrough[OF 1 2 3 4 5 6 p q] b w p q show ?thesis by simp
qed

text \<open>
  C9. For every formula and any two models whose keys cover the formula's variables and
  that agree on each of them, \<^verbatim>\<open>evaluate\<close> returns the same result; as a function of
  its two arguments it returns the same result at every call.
\<close>

theorem evaluate_depends_only_on_formula_variables:
  assumes "is_model m1" "is_model m2"
    and "formula_variables f \<subseteq> set (map fst m1)" "formula_variables f \<subseteq> set (map fst m2)"
    and "\<forall>v \<in> formula_variables f. map_of m1 v = map_of m2 v"
  shows "evaluate f m1 = evaluate f m2"
  using assms by (rule evaluate_agree)

theorem evaluate_depends_only_on_formula_variables_witness:
  "is_model [(''p'', True)] \<and> is_model [(''q'', False), (''p'', True)] \<and>
   evaluate (Formula1 ''~'' (Formula0 ''p'')) [(''p'', True)]
     = evaluate (Formula1 ''~'' (Formula0 ''p'')) [(''q'', False), (''p'', True)]"
proof -
  have 1: "is_model [(''p'', True)]" and 2: "is_model [(''q'', False), (''p'', True)]"
    by (simp_all add: is_model_def label_defs)
  have 3: "formula_variables (Formula1 ''~'' (Formula0 ''p'')) \<subseteq> set (map fst [(''p'', True)])"
    and 4: "formula_variables (Formula1 ''~'' (Formula0 ''p''))
              \<subseteq> set (map fst [(''q'', False), (''p'', True)])"
    by (simp_all add: label_defs)
  have 5: "\<forall>v \<in> formula_variables (Formula1 ''~'' (Formula0 ''p'')).
             map_of [(''p'', True)] v = map_of [(''q'', False), (''p'', True)] v"
    by (simp add: label_defs)
  from 1 2 evaluate_depends_only_on_formula_variables[OF 1 2 3 4 5] show ?thesis by simp
qed

subsection \<open>Model enumerator\<close>

text \<open>
  C5. For every duplicate-free sequence of \<open>n\<close> variable names, \<^verbatim>\<open>all_models\<close> yields
  exactly \<open>2 ^ n\<close> models; the \<open>i\<close>-th model has the given names as its keys, in
  order, and assigns to the name at position \<open>j\<close> bit \<open>n - 1 - j\<close> of \<open>i\<close>; two
  different indices give different assignments and every assignment \<open>a\<close> of booleans
  to the names is the model of some index; for no names at all it yields the empty model
  alone.
\<close>

theorem all_models_enumeration:
  "all_models [] = Inr [[]] \<and>
   (distinct vs \<and> list_all is_variable vs \<longrightarrow>
     (\<exists>ms. all_models vs = Inr ms \<and> length ms = 2 ^ length vs \<and>
        (\<forall>i<2 ^ length vs. map fst (ms ! i) = vs \<and>
            (\<forall>j<length vs. map_of (ms ! i) (vs ! j) = Some (bit i (length vs - 1 - j)))) \<and>
        (\<forall>i<2 ^ length vs. \<forall>i'<2 ^ length vs. map_of (ms ! i) = map_of (ms ! i') \<longrightarrow> i = i') \<and>
        (\<forall>a. \<exists>i<2 ^ length vs. \<forall>j<length vs. map_of (ms ! i) (vs ! j) = Some (a (vs ! j)))))"
proof (intro conjI impI)
  show "all_models [] = Inr [[]]"
    by (simp add: all_models_def build_model_def)
next
  assume h: "distinct vs \<and> list_all is_variable vs"
  then have d: "distinct vs" and v: "list_all is_variable vs" by simp_all
  let ?ms = "map (build_model vs) [0..<2 ^ length vs]"
  have nth: "?ms ! i = build_model vs i" if "i < 2 ^ length vs" for i
    using that by simp
  have 1: "all_models vs = Inr ?ms" by (rule all_models_Inr[OF v])
  have 2: "length ?ms = 2 ^ length vs" by simp
  have 3: "\<forall>i<2 ^ length vs. map fst (?ms ! i) = vs \<and>
            (\<forall>j<length vs. map_of (?ms ! i) (vs ! j) = Some (bit i (length vs - 1 - j)))"
    using build_model_lookup[OF d] by (simp add: nth build_model_map_fst[OF d])
  have 4: "\<forall>i<2 ^ length vs. \<forall>i'<2 ^ length vs. map_of (?ms ! i) = map_of (?ms ! i') \<longrightarrow> i = i'"
    using build_model_inj[OF d] by (simp add: nth)
  have 5: "\<forall>a. \<exists>i<2 ^ length vs. \<forall>j<length vs. map_of (?ms ! i) (vs ! j) = Some (a (vs ! j))"
  proof
    fix a
    from build_model_surj[OF d, of a] obtain i where
      "i < 2 ^ length vs" "\<forall>j<length vs. map_of (build_model vs i) (vs ! j) = Some (a (vs ! j))"
      by blast
    then show "\<exists>i<2 ^ length vs. \<forall>j<length vs. map_of (?ms ! i) (vs ! j) = Some (a (vs ! j))"
      by (auto simp: nth)
  qed
  from 1 2 3 4 5
  show "\<exists>ms. all_models vs = Inr ms \<and> length ms = 2 ^ length vs \<and>
        (\<forall>i<2 ^ length vs. map fst (ms ! i) = vs \<and>
            (\<forall>j<length vs. map_of (ms ! i) (vs ! j) = Some (bit i (length vs - 1 - j)))) \<and>
        (\<forall>i<2 ^ length vs. \<forall>i'<2 ^ length vs. map_of (ms ! i) = map_of (ms ! i') \<longrightarrow> i = i') \<and>
        (\<forall>a. \<exists>i<2 ^ length vs. \<forall>j<length vs. map_of (ms ! i) (vs ! j) = Some (a (vs ! j)))"
    by blast
qed

theorem all_models_enumeration_witness:
  "distinct [''p'', ''q''] \<and> list_all is_variable [''p'', ''q''] \<and>
   (\<exists>ms. all_models [''p'', ''q''] = Inr ms \<and> length ms = 4 \<and>
      map_of (ms ! 2) ''p'' = Some True \<and> map_of (ms ! 2) ''q'' = Some False)"
proof -
  have h: "distinct [''p'', ''q''] \<and> list_all is_variable [''p'', ''q'']"
    by (simp add: is_variable_def is_lower_def)
  from all_models_enumeration[of "[''p'', ''q'']"] h obtain ms where
    ms: "all_models [''p'', ''q''] = Inr ms" "length ms = 2 ^ length [''p'', ''q'']"
    "\<forall>i<2 ^ length [''p'', ''q'']. map fst (ms ! i) = [''p'', ''q''] \<and>
        (\<forall>j<length [''p'', ''q'']. map_of (ms ! i) ([''p'', ''q''] ! j)
            = Some (bit i (length [''p'', ''q''] - 1 - j)))"
    by blast
  have i2: "(2::nat) < 2 ^ length [''p'', ''q'']" by simp
  note b = conjunct2[OF ms(3)[rule_format, OF i2], rule_format]
  have "map_of (ms ! 2) ([''p'', ''q''] ! 0) = Some (bit (2::nat) (length [''p'', ''q''] - 1 - 0))"
    by (rule b) simp
  then have p: "map_of (ms ! 2) ''p'' = Some True" by (simp add: bit_Suc bit_0)
  have "map_of (ms ! 2) ([''p'', ''q''] ! 1) = Some (bit (2::nat) (length [''p'', ''q''] - 1 - 1))"
    by (rule b) simp
  then have q: "map_of (ms ! 2) ''q'' = Some False" by (simp add: bit_0)
  from h ms(1,2) p q show ?thesis by simp
qed

subsection \<open>Classifiers\<close>



subsection \<open>Synthesizers\<close>




text \<open>
  C7 as stated, that a number of values other than \<open>2 ^ n\<close> is signalled and no result
  returned, fails for three values and the one name \<^verbatim>\<open>p\<close>: the third value is never
  read and both synthesizers return \<^verbatim>\<open>~p\<close>.
\<close>

theorem synthesize_preconditions_counterexample:
  "synthesize [''p''] [True, False, True] = Inr (Formula1 ''~'' (Formula0 ''p'')) \<and>
   synthesize_cnf [''p''] [True, False, True] = Inr (Formula1 ''~'' (Formula0 ''p'')) \<and>
   length [True, False, True] \<noteq> 2 ^ length [''p'']"
  by code_simp

text \<open>
  C7, amended. \<^verbatim>\<open>synthesize\<close> and \<^verbatim>\<open>synthesize_cnf\<close> fail their assertion on an empty
  list of names. For a nonempty list of \<open>n\<close> variable names they raise \<open>IndexError\<close>
  when there are fewer than \<open>2 ^ n\<close> values, and when there are more than \<open>2 ^ n\<close>
  they return the formula of the first \<open>2 ^ n\<close> values.
\<close>

theorem synthesize_preconditions:
  "synthesize [] vals = Inl AssertionError \<and> synthesize_cnf [] vals = Inl AssertionError \<and>
   (vs \<noteq> [] \<and> list_all is_variable vs \<and> length vals < 2 ^ length vs \<longrightarrow>
      synthesize vs vals = Inl IndexError \<and> synthesize_cnf vs vals = Inl IndexError) \<and>
   (vs \<noteq> [] \<and> list_all is_variable vs \<and> 2 ^ length vs < length vals \<longrightarrow>
      (\<exists>f. synthesize vs vals = Inr f \<and> synthesize vs (take (2 ^ length vs) vals) = Inr f) \<and>
      (\<exists>g. synthesize_cnf vs vals = Inr g \<and>
         synthesize_cnf vs (take (2 ^ length vs) vals) = Inr g))"
proof (intro conjI impI)
  show "synthesize [] vals = Inl AssertionError" by (simp add: synthesize_def)
  show "synthesize_cnf [] vals = Inl AssertionError" by (simp add: synthesize_cnf_def)
next
  assume "vs \<noteq> [] \<and> list_all is_variable vs \<and> length vals < 2 ^ length vs"
  then have h: "vs \<noteq> []" "list_all is_variable vs" "length vals < 2 ^ length vs" by simp_all
  show "synthesize vs vals = Inl IndexError" by (rule synthesize_short(1)[OF h])
  show "synthesize_cnf vs vals = Inl IndexError" by (rule synthesize_short(2)[OF h])
next
  assume "vs \<noteq> [] \<and> list_all is_variable vs \<and> 2 ^ length vs < length vals"
  then have h: "vs \<noteq> []" "list_all is_variable vs" "2 ^ length vs \<le> length vals" by simp_all
  show "\<exists>f. synthesize vs vals = Inr f \<and> synthesize vs (take (2 ^ length vs) vals) = Inr f"
    using synthesize_long(1,2)[OF h] by auto
  show "\<exists>g. synthesize_cnf vs vals = Inr g \<and> synthesize_cnf vs (take (2 ^ length vs) vals) = Inr g"
    using synthesize_long(3,4)[OF h] by auto
qed

theorem synthesize_preconditions_witness:
  "synthesize [] [True, False] = Inl AssertionError \<and>
   length [True] < 2 ^ length [''p''] \<and> synthesize [''p''] [True] = Inl IndexError \<and>
   synthesize_cnf [''p''] [True] = Inl IndexError \<and>
   2 ^ length [''p''] < length [True, False, True] \<and>
   (\<exists>f. synthesize [''p''] [True, False, True] = Inr f \<and>
      synthesize [''p''] (take (2 ^ length [''p'']) [True, False, True]) = Inr f)"
proof -
  have v: "[''p''] \<noteq> [] \<and> list_all is_variable [''p'']" by (simp add: label_defs)
  have s: "length [True] < 2 ^ length [''p'']" by simp
  have l: "2 ^ length [''p''] < length [True, False, True]" by simp
  from synthesize_preconditions[of "[True, False]" "[''p'']"]
  have 1: "synthesize [] [True, False] = Inl AssertionError" by blast
  from synthesize_preconditions[of "[True]" "[''p'']"] v s
  have 2: "synthesize [''p''] [True] = Inl IndexError \<and> synthesize_cnf [''p''] [True] = Inl IndexError"
    by blast
  from synthesize_preconditions[of "[True, False, True]" "[''p'']"] v l
  have 3: "\<exists>f. synthesize [''p''] [True, False, True] = Inr f \<and>
      synthesize [''p''] (take (2 ^ length [''p'']) [True, False, True]) = Inr f"
    by blast
  from 1 2 3 s l show ?thesis by blast
qed

text \<open>
  C8. For every nonempty list of variable names, when every one of the \<open>2 ^ n\<close> values
  is false the formula that \<^verbatim>\<open>synthesize\<close> returns evaluates to false in every model
  over (a superset of) its variables, and when every value is true the formula that
  \<^verbatim>\<open>synthesize_cnf\<close> returns evaluates to true in every such model.
\<close>

theorem synthesize_constant_tables:
  assumes "vs \<noteq> []" "list_all is_variable vs" "length vals = 2 ^ length vs"
  shows "((\<forall>i<length vals. \<not> vals ! i) \<longrightarrow>
            (\<exists>f. synthesize vs vals = Inr f \<and>
               (\<forall>m. is_model m \<and> formula_variables f \<subseteq> set (map fst m)
                  \<longrightarrow> evaluate f m = Inr False))) \<and>
         ((\<forall>i<length vals. vals ! i) \<longrightarrow>
            (\<exists>f. synthesize_cnf vs vals = Inr f \<and>
               (\<forall>m. is_model m \<and> formula_variables f \<subseteq> set (map fst m)
                  \<longrightarrow> evaluate f m = Inr True)))"
proof (intro conjI impI)
  assume a: "\<forall>i<length vals. \<not> vals ! i"
  let ?f = "Formula2 ''&'' (Formula0 ''p'') (Formula1 ''~'' (Formula0 ''p''))"
  have "\<forall>m. is_model m \<and> formula_variables ?f \<subseteq> set (map fst m) \<longrightarrow> evaluate ?f m = Inr False"
  proof (intro allI impI)
    fix m assume "is_model m \<and> formula_variables ?f \<subseteq> set (map fst m)"
    then have "is_model m" "''p'' \<in> fst ` set m" unfolding sentinel_variables by simp_all
    then show "evaluate ?f m = Inr False" by (rule evaluate_sentinels(1))
  qed
  with synthesize_all_false[OF assms a]
  show "\<exists>f. synthesize vs vals = Inr f \<and>
      (\<forall>m. is_model m \<and> formula_variables f \<subseteq> set (map fst m) \<longrightarrow> evaluate f m = Inr False)"
    by blast
next
  assume a: "\<forall>i<length vals. vals ! i"
  let ?f = "Formula2 ''|'' (Formula0 ''p'') (Formula1 ''~'' (Formula0 ''p''))"
  have "\<forall>m. is_model m \<and> formula_variables ?f \<subseteq> set (map fst m) \<longrightarrow> evaluate ?f m = Inr True"
  proof (intro allI impI)
    fix m assume "is_model m \<and> formula_variables ?f \<subseteq> set (map fst m)"
    then have "is_model m" "''p'' \<in> fst ` set m" unfolding sentinel_variables by simp_all
    then show "evaluate ?f m = Inr True" by (rule evaluate_sentinels(2))
  qed
  with synthesize_cnf_all_true[OF assms a]
  show "\<exists>f. synthesize_cnf vs vals = Inr f \<and>
      (\<forall>m. is_model m \<and> formula_variables f \<subseteq> set (map fst m) \<longrightarrow> evaluate f m = Inr True)"
    by blast
qed

theorem synthesize_constant_tables_witness:
  "[''q''] \<noteq> [] \<and> list_all is_variable [''q''] \<and> length [False, False] = 2 ^ length [''q''] \<and>
   (\<exists>f. synthesize [''q''] [False, False] = Inr f \<and> evaluate f [(''p'', True)] = Inr False \<and>
      evaluate f [(''p'', False)] = Inr False) \<and>
   (\<exists>f. synthesize_cnf [''q''] [True, True] = Inr f \<and> evaluate f [(''p'', True)] = Inr True \<and>
      evaluate f [(''p'', False)] = Inr True)"
proof -
  have 1: "[''q''] \<noteq> []" and 2: "list_all is_variable [''q'']"
    and 3: "length [False, False] = 2 ^ length [''q'']"
    and t3: "length [True, True] = 2 ^ length [''q'']"
    by (simp_all add: label_defs)
  have 4: "\<forall>i<length [False, False]. \<not> [False, False] ! i"
    and 5: "\<forall>i<length [True, True]. [True, True] ! i"
    by (simp_all add: nth_Cons')
  from synthesize_constant_tables[OF 1 2 3] 4 obtain f where
    f: "synthesize [''q''] [False, False] = Inr f"
      "\<forall>m. is_model m \<and> formula_variables f \<subseteq> set (map fst m) \<longrightarrow> evaluate f m = Inr False"
    by blast
  have "synthesize [''q''] [False, False]
      = Inr (Formula2 ''&'' (Formula0 ''p'') (Formula1 ''~'' (Formula0 ''p'')))" by code_simp
  with f(1) have fe: "f = Formula2 ''&'' (Formula0 ''p'') (Formula1 ''~'' (Formula0 ''p''))"
    by simp
  from synthesize_constant_tables[OF 1 2 t3] 5 obtain g where
    g: "synthesize_cnf [''q''] [True, True] = Inr g"
      "\<forall>m. is_model m \<and> formula_variables g \<subseteq> set (map fst m) \<longrightarrow> evaluate g m = Inr True"
    by blast
  have "synthesize_cnf [''q''] [True, True]
      = Inr (Formula2 ''|'' (Formula0 ''p'') (Formula1 ''~'' (Formula0 ''p'')))" by code_simp
  with g(1) have ge: "g = Formula2 ''|'' (Formula0 ''p'') (Formula1 ''~'' (Formula0 ''p''))"
    by simp
  have m: "is_model [(''p'', b)]" for b by (simp add: is_model_def label_defs)
  have "evaluate f [(''p'', b)] = Inr False" for b
    using f(2)[rule_format, of "[(''p'', b)]"] m unfolding fe sentinel_variables by simp
  moreover have "evaluate g [(''p'', b)] = Inr True" for b
    using g(2)[rule_format, of "[(''p'', b)]"] m unfolding ge sentinel_variables by simp
  ultimately show ?thesis using 1 2 3 f(1) g(1) by blast
qed

text \<open>
  C10. For every nonempty list of variable names, when every one of the \<open>2 ^ n\<close>
  values is false \<^verbatim>\<open>synthesize\<close> returns exactly \<^verbatim>\<open>(p&~p)\<close>, and when every value is
  true \<^verbatim>\<open>synthesize_cnf\<close> returns exactly \<^verbatim>\<open>(p|~p)\<close>, whether or not \<^verbatim>\<open>p\<close> is one of
  the names; the set of variables of either formula is \<open>{p}\<close>.
\<close>

theorem synthesize_sentinels:
  assumes "vs \<noteq> []" "list_all is_variable vs" "length vals = 2 ^ length vs"
  shows "((\<forall>i<length vals. \<not> vals ! i) \<longrightarrow> synthesize vs vals
            = Inr (Formula2 ''&'' (Formula0 ''p'') (Formula1 ''~'' (Formula0 ''p'')))) \<and>
         ((\<forall>i<length vals. vals ! i) \<longrightarrow> synthesize_cnf vs vals
            = Inr (Formula2 ''|'' (Formula0 ''p'') (Formula1 ''~'' (Formula0 ''p'')))) \<and>
         formula_variables (Formula2 ''&'' (Formula0 ''p'') (Formula1 ''~'' (Formula0 ''p'')))
            = {''p''} \<and>
         formula_variables (Formula2 ''|'' (Formula0 ''p'') (Formula1 ''~'' (Formula0 ''p'')))
            = {''p''}"
  using synthesize_all_false[OF assms] synthesize_cnf_all_true[OF assms] sentinel_variables
  by blast

theorem synthesize_sentinels_witness:
  "[''q''] \<noteq> [] \<and> list_all is_variable [''q''] \<and> length [False, False] = 2 ^ length [''q''] \<and>
   synthesize [''q''] [False, False]
     = Inr (Formula2 ''&'' (Formula0 ''p'') (Formula1 ''~'' (Formula0 ''p''))) \<and>
   synthesize_cnf [''q''] [True, True]
     = Inr (Formula2 ''|'' (Formula0 ''p'') (Formula1 ''~'' (Formula0 ''p''))) \<and>
   ''p'' \<notin> set [''q'']"
proof -
  have 1: "[''q''] \<noteq> []" and 2: "list_all is_variable [''q'']"
    and 3: "length [False, False] = 2 ^ length [''q'']"
    and t3: "length [True, True] = 2 ^ length [''q'']"
    and 6: "''p'' \<notin> set [''q'']"
    by (simp_all add: label_defs)
  have 4: "\<forall>i<length [False, False]. \<not> [False, False] ! i"
    and 5: "\<forall>i<length [True, True]. [True, True] ! i"
    by (simp_all add: nth_Cons')
  from synthesize_sentinels[OF 1 2 3] synthesize_sentinels[OF 1 2 t3] 4 5 1 2 3 6
  show ?thesis by blast
qed

subsection \<open>Inference-rule semantic checks\<close>

text \<open>
  C2. \<^verbatim>\<open>evaluate_inference(rule, model)\<close> is to return true if and only if some assumption
  is false in the model or the conclusion is true in it. The function asserts that the
  model is a model and returns nothing: for the rule with assumption \<open>p\<close> and conclusion
  \<open>q\<close> and the model in which both are false, where its docstring promises \<^verbatim>\<open>True\<close>,
  the result is \<^verbatim>\<open>None\<close>.
\<close>

theorem evaluate_inference_returns_none:
  "evaluate_inference \<lparr>assumptions = [Formula0 ''p''], conclusion = Formula0 ''q''\<rparr>
     [(''p'', False), (''q'', False)] = Inr None"
  by (simp add: evaluate_inference_def is_model_def label_defs)

theorem evaluate_inference_returns_none_witness:
  "evaluate_inference \<lparr>assumptions = [Formula0 ''p''], conclusion = Formula0 ''q''\<rparr>
     [(''p'', False), (''q'', False)] \<noteq> Inr (Some True)"
  using evaluate_inference_returns_none by simp

text \<open>
  C3. \<^verbatim>\<open>is_sound_inference(rule)\<close> is to return true if and only if the rule holds in
  every model over the variables of its assumptions and conclusion. The function has no
  statement after its docstring: for the sound rule with assumption \<open>p\<close> and conclusion
  \<open>p\<close> the result is \<^verbatim>\<open>None\<close>, not \<^verbatim>\<open>True\<close>.
\<close>

theorem is_sound_inference_returns_none:
  "is_sound_inference \<lparr>assumptions = [Formula0 ''p''], conclusion = Formula0 ''p''\<rparr> = Inr None"
  by (simp add: is_sound_inference_def)

theorem is_sound_inference_returns_none_witness:
  "is_sound_inference \<lparr>assumptions = [Formula0 ''p''], conclusion = Formula0 ''p''\<rparr>
     \<noteq> Inr (Some True)"
  using is_sound_inference_returns_none by simp

end
